theory Spec2Isabelle
  imports Complex_Main "HOL-Library.Multiset" "HOL-Library.Sublist"
begin

section \<open>JavaScript values used by the application\<close>

text \<open>
  A JavaScript number is a double. Comparison of two doubles is the comparison of the real
  values they denote, so a finite number is modelled by that real value (the two zeros
  coincide); the three non-finite numbers are kept apart. Every statement below that holds for
  all reals holds for the doubles among them.
\<close>

datatype jsnumber = Finite real | PlusInfinity | MinusInfinity | NaN

text \<open>\<open>ToBoolean\<close> on a number: zero and NaN are falsy.\<close>

fun number_truthy :: "jsnumber \<Rightarrow> bool" where
  "number_truthy (Finite r) = (r \<noteq> 0)"
| "number_truthy NaN = False"
| "number_truthy PlusInfinity = True"
| "number_truthy MinusInfinity = True"

text \<open>The operator \<open>a > b\<close> on numbers.\<close>

fun number_gt :: "jsnumber \<Rightarrow> jsnumber \<Rightarrow> bool" where
  "number_gt (Finite a) (Finite b) = (b < a)"
| "number_gt (Finite a) MinusInfinity = True"
| "number_gt PlusInfinity (Finite b) = True"
| "number_gt PlusInfinity MinusInfinity = True"
| "number_gt _ _ = False"

text \<open>
  Strings are lists of code units; \<open>char\<close> covers the code units below 256. The white space
  of \<open>String.prototype.trim\<close> and of the regular-expression class \<open>\s\<close> (WhiteSpace and
  LineTerminator) is, in that range, TAB, LF, VT, FF, CR, SPACE and NBSP.
\<close>

definition is_space :: "char \<Rightarrow> bool" where
  "is_space c = (c \<in> {CHR 0x09, CHR 0x0A, CHR 0x0B, CHR 0x0C, CHR 0x0D, CHR 0x20, CHR 0xA0})"

definition trim :: "string \<Rightarrow> string" where
  "trim s = rev (dropWhile is_space (rev (dropWhile is_space s)))"

text \<open>The values \<open>JSON.parse\<close> produces. An object lists its own properties.\<close>

datatype json =
    JNull
  | JBool bool
  | JNumber jsnumber
  | JString string
  | JArray "json list"
  | JObject "(string \<times> json) list"

fun truthy :: "json \<Rightarrow> bool" where
  "truthy JNull = False"
| "truthy (JBool b) = b"
| "truthy (JNumber n) = number_truthy n"
| "truthy (JString s) = (s \<noteq> [])"
| "truthy (JArray vs) = True"
| "truthy (JObject kvs) = True"

text \<open>
  Reading a property \<open>v.k\<close>: a TypeError on \<open>null\<close>, the stored value on an object that has
  the key, \<open>undefined\<close> otherwise. The application reads only the names \<open>components\<close>,
  \<open>defects\<close>, \<open>jumper\<close>, \<open>from\<close> and \<open>to\<close>, none of which is a property of a string,
  an array, a number or a boolean.
\<close>

datatype access = TypeError | Undefined | Value json

fun get_prop :: "json \<Rightarrow> string \<Rightarrow> access" where
  "get_prop JNull k = TypeError"
| "get_prop (JObject kvs) k = (case map_of kvs k of None \<Rightarrow> Undefined | Some v \<Rightarrow> Value v)"
| "get_prop v k = Undefined"

text \<open>Optional chaining \<open>a?.k\<close> on the result of a previous read.\<close>

fun opt_chain :: "access \<Rightarrow> string \<Rightarrow> access" where
  "opt_chain TypeError k = TypeError"
| "opt_chain Undefined k = Undefined"
| "opt_chain (Value JNull) k = Undefined"
| "opt_chain (Value v) k = get_prop v k"

fun access_truthy :: "access \<Rightarrow> bool" where
  "access_truthy (Value v) = truthy v"
| "access_truthy a = False"

section \<open>The data model (types.ts)\<close>

record BoundingBox =
  bbox_x :: jsnumber
  bbox_y :: jsnumber
  bbox_w :: jsnumber
  bbox_h :: jsnumber

datatype Presence = Presence_missing | Presence_ok

datatype Condition = Condition_burnt | Condition_corroded | Condition_ok

record Component =
  designator :: string
  mpn :: string
  bbox :: BoundingBox
  presence :: Presence
  condition :: Condition
  confidence :: jsnumber
  temperature :: "jsnumber option"
  datasheetUrl :: "string option"
  maxVoltage :: "jsnumber option"

record Defect =
  defect_id :: string
  defect_type :: string
  defect_bbox :: BoundingBox
  defect_confidence :: jsnumber
  description :: "string option"

record Replacement =
  replacement_mpn :: string
  reason :: string

record Alternative =
  original_mpn :: string
  replacements :: "Replacement list"

record Advice =
  quick_actions :: "string list"
  alternatives :: "Alternative list"
  next_steps :: "string list"
  repair_cost :: "jsnumber option"

record PcbAnalysis =
  components :: "Component list"
  defects :: "Defect list"
  summary :: string
  advice :: Advice

datatype Role = Role_user | Role_model

text \<open>
  The jumper suggestion of a message is the \<open>jumper\<close> value of the parsed reply, stored as
  parsed: the code checks no more of it than that \<open>from\<close> and \<open>to\<close> are truthy.
\<close>

record ChatMessage =
  msg_role :: Role
  msg_text :: string
  msg_jumperSuggestion :: "json option"

section \<open>Derived projections (AnalysisViewer.tsx, ResultsPanel.tsx, pdfService.ts)\<close>

text \<open>
  \<open>boardVoltage && component.maxVoltage && boardVoltage > component.maxVoltage\<close>, read as a
  condition. The same expression stands in AnalysisViewer (\<open>hasVoltageMismatch\<close>), in the two
  filters of the explorer view, in the issue count of the results panel, in the popover and in
  the PDF report.
\<close>

definition hasVoltageMismatch :: "jsnumber option \<Rightarrow> Component \<Rightarrow> bool" where
  "hasVoltageMismatch boardVoltage component =
     (case boardVoltage of
        None \<Rightarrow> False
      | Some bv \<Rightarrow>
          if number_truthy bv then
            (case maxVoltage component of
               None \<Rightarrow> False
             | Some mv \<Rightarrow> if number_truthy mv then number_gt bv mv else False)
          else False)"

text \<open>The predicate of the first filter: \<open>presence !== 'ok' || condition !== 'ok' || (...)\<close>.\<close>

definition issue_pred :: "jsnumber option \<Rightarrow> Component \<Rightarrow> bool" where
  "issue_pred boardVoltage c =
     (presence c \<noteq> Presence_ok \<or> condition c \<noteq> Condition_ok \<or> hasVoltageMismatch boardVoltage c)"

text \<open>The predicate of the second filter: \<open>presence === 'ok' && condition === 'ok' && !(...)\<close>.\<close>

definition ok_pred :: "jsnumber option \<Rightarrow> Component \<Rightarrow> bool" where
  "ok_pred boardVoltage c =
     (presence c = Presence_ok \<and> condition c = Condition_ok \<and> \<not> hasVoltageMismatch boardVoltage c)"

text \<open>
  \<open>String.prototype.toLowerCase\<close> on code units below 256: the ASCII capitals and the
  Latin-1 capitals (0xC0 to 0xDE without the multiplication sign 0xD7) move up by 0x20.
\<close>

definition lower_char :: "char \<Rightarrow> char" where
  "lower_char c =
     (let n = (of_char c :: nat) in
      if (0x41 \<le> n \<and> n \<le> 0x5A) \<or> (0xC0 \<le> n \<and> n \<le> 0xDE \<and> n \<noteq> 0xD7)
      then char_of (n + 0x20) else c)"

definition toLowerCase :: "string \<Rightarrow> string" where
  "toLowerCase s = map lower_char s"

text \<open>\<open>s.includes(t)\<close>: \<open>t\<close> occurs in \<open>s\<close> as a contiguous run.\<close>

fun includes_str :: "string \<Rightarrow> string \<Rightarrow> bool" where
  "includes_str [] t = (t = [])"
| "includes_str (c # cs) t = (prefix t (c # cs) \<or> includes_str cs t)"

text \<open>The search filter of the explorer view; an empty search term keeps the whole list.\<close>

definition filtered :: "string \<Rightarrow> Component list \<Rightarrow> Component list" where
  "filtered searchTerm cs =
     (let lowercasedSearch = toLowerCase searchTerm in
      if searchTerm \<noteq> [] then
        filter (\<lambda>c. includes_str (toLowerCase (designator c)) lowercasedSearch
                  \<or> includes_str (toLowerCase (mpn c)) lowercasedSearch) cs
      else cs)"

definition explorer_componentsWithIssues ::
  "string \<Rightarrow> jsnumber option \<Rightarrow> PcbAnalysis \<Rightarrow> Component list" where
  "explorer_componentsWithIssues searchTerm boardVoltage a =
     filter (issue_pred boardVoltage) (filtered searchTerm (components a))"

definition explorer_okComponents ::
  "string \<Rightarrow> jsnumber option \<Rightarrow> PcbAnalysis \<Rightarrow> Component list" where
  "explorer_okComponents searchTerm boardVoltage a =
     filter (ok_pred boardVoltage) (filtered searchTerm (components a))"

definition pdf_componentsWithIssues :: "jsnumber option \<Rightarrow> PcbAnalysis \<Rightarrow> Component list" where
  "pdf_componentsWithIssues boardVoltage a = filter (issue_pred boardVoltage) (components a)"

definition pdf_okComponents :: "jsnumber option \<Rightarrow> PcbAnalysis \<Rightarrow> Component list" where
  "pdf_okComponents boardVoltage a = filter (ok_pred boardVoltage) (components a)"

text \<open>The issue count of the results panel (ResultsPanel, \<open>componentsWithIssues\<close>).\<close>

definition componentsWithIssues :: "jsnumber option \<Rightarrow> PcbAnalysis \<Rightarrow> Component list" where
  "componentsWithIssues boardVoltage a = filter (issue_pred boardVoltage) (components a)"


section \<open>The analysis client (services/geminiService.ts)\<close>

text \<open>
  The three kinds of failure of the specification and the message of the \<open>Error\<close> object that
  the code throws for each. A failure of the remote service carries the message of the SDK.
\<close>

datatype error = ConfigurationError | ServiceError string | MalformedResponse

fun error_message :: "error \<Rightarrow> string" where
  "error_message ConfigurationError = ''API_KEY environment variable not set.''"
| "error_message (ServiceError m) = m"
| "error_message MalformedResponse = ''AI returned invalid data format. Please try again.''"

text \<open>
  An uploaded file: its name, its MIME type and the base64 payload that the FileReader of
  \<open>fileToGenerativePart\<close> yields for it.
\<close>

record File =
  file_name :: string
  file_type :: string
  file_base64 :: string

text \<open>
  The request \<open>generateContent\<close> receives: the credential of the client, the model, the image
  part and the generation temperature. The instruction text and the response schema are the
  same constants in every request and are left out.
\<close>

record request =
  req_apiKey :: string
  req_model :: string
  req_data :: string
  req_mimeType :: string
  req_temperature :: real

text \<open>
  The body of the \<open>try\<close> block of \<open>analyzePcbImage\<close>; \<open>None\<close> when an exception leaves it
  (the SyntaxError of \<open>JSON.parse\<close>, the TypeError of a property read on \<open>null\<close>, or the
  Error thrown by the validation). \<open>JSON.parse\<close> is a parameter: \<open>None\<close> is its SyntaxError.
\<close>

definition analysis_try :: "(string \<Rightarrow> json option) \<Rightarrow> string \<Rightarrow> json option" where
  "analysis_try JSON_parse jsonText =
     (case JSON_parse jsonText of
        None \<Rightarrow> None
      | Some parsed \<Rightarrow>
          (case get_prop parsed ''components'' of
             TypeError \<Rightarrow> None
           | c \<Rightarrow>
               if \<not> access_truthy c then None
               else (case get_prop parsed ''defects'' of
                       TypeError \<Rightarrow> None
                     | d \<Rightarrow> if \<not> access_truthy d then None else Some parsed)))"

text \<open>Lines 160 to 173: trim the reply, run the \<open>try\<close> block, rethrow on any exception.\<close>

definition parse_reply :: "(string \<Rightarrow> json option) \<Rightarrow> string \<Rightarrow> error + json" where
  "parse_reply JSON_parse text =
     (let jsonText = trim text in
      (case analysis_try JSON_parse jsonText of
         None \<Rightarrow> Inl MalformedResponse
       | Some parsed \<Rightarrow> Inr parsed))"

text \<open>
  \<open>analyzePcbImage\<close>. The environment is explicit: the credential \<open>process.env.API_KEY\<close>
  (unset and empty are falsy), the remote service (its reply text, or the message of the
  error it fails with), \<open>JSON.parse\<close>, and the list of the requests sent over the network so
  far, returned extended by the request of this call.
\<close>

definition analyzePcbImage ::
  "string option \<Rightarrow> (request \<Rightarrow> string + string) \<Rightarrow> (string \<Rightarrow> json option) \<Rightarrow> File
     \<Rightarrow> request list \<Rightarrow> (error + json) \<times> request list" where
  "analyzePcbImage API_KEY generateContent JSON_parse imageFile network =
     (case API_KEY of
        None \<Rightarrow> (Inl ConfigurationError, network)
      | Some key \<Rightarrow>
          if key = [] then (Inl ConfigurationError, network)
          else
            let req = \<lparr>req_apiKey = key, req_model = ''gemini-2.5-flash'',
                       req_data = file_base64 imageFile, req_mimeType = file_type imageFile,
                       req_temperature = 0.1\<rparr>
            in (case generateContent req of
                  Inl m \<Rightarrow> (Inl (ServiceError m), network @ [req])
                | Inr text \<Rightarrow> (parse_reply JSON_parse text, network @ [req])))"

section \<open>The chat client (services/geminiService.ts)\<close>

fun getStatusText :: "Component \<Rightarrow> string" where
  "getStatusText component =
     (if condition component = Condition_burnt then ''Burnt''
      else if condition component = Condition_corroded then ''Corroded''
      else if presence component = Presence_missing then ''Missing''
      else ''OK'')"

text \<open>
  The text \<open>sendMessage\<close> passes to the chat session. The conversion of a number to a string
  in a template literal is a parameter.
\<close>

definition contextualMessage ::
  "(jsnumber \<Rightarrow> string) \<Rightarrow> string \<Rightarrow> Component option \<Rightarrow> jsnumber option \<Rightarrow> string" where
  "contextualMessage number_str message component boardVoltage =
     (let m1 = (case component of
                  None \<Rightarrow> message
                | Some c \<Rightarrow>
                    ''Context: I have selected component '' @ designator c @ '' ('' @ mpn c
                    @ ''). Its condition is '' @ [CHR 0x27] @ getStatusText c @ [CHR 0x27]
                    @ ''.'' @ [CHR 0x0A, CHR 0x0A] @ ''My question: '' @ message)
      in (case boardVoltage of
            None \<Rightarrow> m1
          | Some bv \<Rightarrow>
              if number_truthy bv
              then m1 @ [CHR 0x0A] @ ''(Note: The board voltage is set to '' @ number_str bv @ ''V).''
              else m1))"

section \<open>The application state (App.tsx)\<close>

text \<open>The chat session handle: \<open>createChat(apiKey)\<close>.\<close>

datatype Chat = createChat string

record App =
  analysis :: "PcbAnalysis option"
  imageFile :: "File option"
  imageUrl :: "string option"
  isLoading :: bool
  error :: "string option"
  hoveredId :: "string option"
  selectedId :: "string option"
  boardVoltage :: "jsnumber option"
  chat :: "Chat option"
  chatHistory :: "ChatMessage list"
  isChatLoading :: bool
  jumperSuggestion :: "json option"
  isReporting :: bool

definition initial :: App where
  "initial = \<lparr>analysis = None, imageFile = None, imageUrl = None, isLoading = False,
     error = None, hoveredId = None, selectedId = None, boardVoltage = None, chat = None,
     chatHistory = [], isChatLoading = False, jumperSuggestion = None, isReporting = False\<rparr>"

text \<open>
  \<open>handleReset\<close>, one update per setter call in the order of the code. Revoking the object
  URL acts on the browser, not on the state.
\<close>

definition handleReset :: "App \<Rightarrow> App" where
  "handleReset s =
     s\<lparr>analysis := None, imageFile := None, imageUrl := None, isLoading := False,
       error := None, hoveredId := None, selectedId := None, boardVoltage := None,
       chat := None, chatHistory := [], jumperSuggestion := None\<rparr>"

text \<open>
  \<open>handleImageUpload\<close> up to its \<open>await\<close>: the reset, then the new file, its object URL
  (from \<open>URL.createObjectURL\<close>, given here) and the loading flag. The analysis request is
  issued right after these calls.
\<close>

definition handleImageUpload_start :: "File \<Rightarrow> string \<Rightarrow> App \<Rightarrow> App" where
  "handleImageUpload_start file url s =
     (handleReset s)\<lparr>imageFile := Some file, imageUrl := Some url, isLoading := True\<rparr>"

text \<open>
  \<open>handleImageUpload\<close> after its \<open>await\<close>, when the promise of this request settles: the
  result is stored, or the message of the error; \<open>finally\<close> clears the loading flag.
\<close>

definition handleImageUpload_settle :: "error + PcbAnalysis \<Rightarrow> App \<Rightarrow> App" where
  "handleImageUpload_settle outcome s =
     (case outcome of
        Inr result \<Rightarrow> s\<lparr>analysis := Some result, isLoading := False\<rparr>
      | Inl err \<Rightarrow> s\<lparr>error := Some (error_message err), isLoading := False\<rparr>)"

text \<open>
  The effect that follows a render: with an analysis, no chat session and a credential, a
  chat session is created.
\<close>

definition chat_effect :: "string option \<Rightarrow> App \<Rightarrow> App" where
  "chat_effect API_KEY s =
     (case API_KEY of
        None \<Rightarrow> s
      | Some key \<Rightarrow>
          if analysis s \<noteq> None \<and> chat s = None \<and> key \<noteq> []
          then s\<lparr>chat := Some (createChat key)\<rparr> else s)"





text \<open>
  The controller together with the analysis requests that are in flight (each named by the
  file it was issued for, oldest first), and the events that drive it: an upload, a click on
  Start Over, and the arrival of the reply to an in-flight request. Each step ends with the
  effect of the render that follows the event. Without a credential \<open>analyzePcbImage\<close>
  throws its first error, so the promise of a request settles with that error whatever the
  event carries.
\<close>

definition request_outcome :: "string option \<Rightarrow> error + PcbAnalysis \<Rightarrow> error + PcbAnalysis" where
  "request_outcome API_KEY outcome =
     (case API_KEY of
        None \<Rightarrow> Inl ConfigurationError
      | Some key \<Rightarrow> if key = [] then Inl ConfigurationError else outcome)"

record Controller =
  app :: App
  inflight :: "File list"

datatype event =
    Upload File string
  | StartOver
  | Settled File "error + PcbAnalysis"

fun step :: "string option \<Rightarrow> Controller \<Rightarrow> event \<Rightarrow> Controller" where
  "step API_KEY c (Upload file url) =
     \<lparr>app = chat_effect API_KEY (handleImageUpload_start file url (app c)),
      inflight = inflight c @ [file]\<rparr>"
| "step API_KEY c StartOver = c\<lparr>app := chat_effect API_KEY (handleReset (app c))\<rparr>"
| "step API_KEY c (Settled file outcome) =
     (if file \<in> set (inflight c)
      then \<lparr>app = chat_effect API_KEY
                    (handleImageUpload_settle (request_outcome API_KEY outcome) (app c)),
            inflight = remove1 file (inflight c)\<rparr>
      else c)"

definition run :: "string option \<Rightarrow> Controller \<Rightarrow> event list \<Rightarrow> Controller" where
  "run API_KEY c evs = foldl (step API_KEY) c evs"

definition start :: Controller where
  "start = \<lparr>app = initial, inflight = []\<rparr>"

section \<open>Chat messages (App.tsx, handleSendMessage)\<close>

text \<open>
  \<open>JUMPER_JSON_REGEX\<close>, the pattern \<open>```json\s*(\{[\s\S]*?\})\s*```\<close>, as the matcher it
  denotes. \<open>match_close\<close> runs on the text after the opening brace: the lazy star gives the
  first closing brace after which white space and the closing fence follow; the result is the
  rest of group 1 and the text after the match.
\<close>

fun match_close :: "string \<Rightarrow> (string \<times> string) option" where
  "match_close [] = None"
| "match_close (c # cs) =
     (if c = CHR ''}'' \<and> prefix ''```'' (dropWhile is_space cs)
      then Some ([c], drop 3 (dropWhile is_space cs))
      else (case match_close cs of
              None \<Rightarrow> None
            | Some (g, rest) \<Rightarrow> Some (c # g, rest)))"

text \<open>The pattern at the start of the text: group 1 and the text after the match.\<close>

definition match_here :: "string \<Rightarrow> (string \<times> string) option" where
  "match_here s =
     (if prefix ''```json'' s then
        (case dropWhile is_space (drop 7 s) of
           [] \<Rightarrow> None
         | c # cs \<Rightarrow>
             if c = CHR ''{'' then
               (case match_close cs of
                  None \<Rightarrow> None
                | Some (g, rest) \<Rightarrow> Some (c # g, rest))
             else None)
      else None)"

text \<open>
  \<open>responseText.match(JUMPER_JSON_REGEX)\<close>: the leftmost match, as the text before it,
  group 1 and the text after it.
\<close>

fun regex_match :: "string \<Rightarrow> (string \<times> string \<times> string) option" where
  "regex_match [] = None"
| "regex_match (c # cs) =
     (case match_here (c # cs) of
        Some (g, rest) \<Rightarrow> Some ([], g, rest)
      | None \<Rightarrow>
          (case regex_match cs of
             None \<Rightarrow> None
           | Some (before, g, rest) \<Rightarrow> Some (c # before, g, rest)))"

text \<open>
  The texts the pattern matches, read off the pattern itself: \<open>block_at\<close> says that the reply
  is \<open>pre\<close>, the opening fence, white space, a text in braces, white space, the closing fence
  and \<open>post\<close>. \<open>first_block\<close> singles out the match a regular-expression engine reports: no
  block starts further left, and of the blocks that start there none has a shorter body (the
  star of the body is lazy).
\<close>

definition block_at :: "string \<Rightarrow> string \<Rightarrow> string \<Rightarrow> string \<Rightarrow> string \<Rightarrow> string \<Rightarrow> bool" where
  "block_at reply pre ws body ws' post \<longleftrightarrow>
     (\<forall>c\<in>set ws. is_space c) \<and> (\<forall>c\<in>set ws'. is_space c)
     \<and> reply = pre @ ''```json'' @ ws @ ''{'' @ body @ ''}'' @ ws' @ ''```'' @ post"

definition first_block :: "string \<Rightarrow> string \<Rightarrow> string \<Rightarrow> string \<Rightarrow> string \<Rightarrow> string \<Rightarrow> bool" where
  "first_block reply pre ws body ws' post \<longleftrightarrow>
     block_at reply pre ws body ws' post
     \<and> (\<forall>p w b w' q. block_at reply p w b w' q \<longrightarrow>
           length pre \<le> length p \<and> (length p = length pre \<longrightarrow> length body \<le> length b))"

text \<open>\<open>responseText.replace(JUMPER_JSON_REGEX, '')\<close>: the first match is cut out.\<close>

definition replace_block :: "string \<Rightarrow> string" where
  "replace_block responseText =
     (case regex_match responseText of
        None \<Rightarrow> responseText
      | Some (before, g, rest) \<Rightarrow> before @ rest)"

text \<open>
  Lines 118 to 131: the value left in \<open>jumper\<close>. An exception of \<open>JSON.parse\<close> or of the
  read of \<open>jumper\<close> on \<open>null\<close> is caught and leaves \<open>null\<close>.
\<close>

definition extract_jumper :: "(string \<Rightarrow> json option) \<Rightarrow> string \<Rightarrow> json option" where
  "extract_jumper JSON_parse responseText =
     (case regex_match responseText of
        None \<Rightarrow> None
      | Some (before, g, rest) \<Rightarrow>
          if g \<noteq> [] then
            (case JSON_parse g of
               None \<Rightarrow> None
             | Some parsed \<Rightarrow>
                 (case get_prop parsed ''jumper'' of
                    TypeError \<Rightarrow> None
                  | Undefined \<Rightarrow> None
                  | Value j \<Rightarrow>
                      if access_truthy (opt_chain (Value j) ''from'')
                         \<and> access_truthy (opt_chain (Value j) ''to'')
                      then Some j else None))
          else None)"

text \<open>The message built from the reply: \<open>jumper || undefined\<close> keeps a truthy jumper.\<close>

definition modelMessage :: "(string \<Rightarrow> json option) \<Rightarrow> string \<Rightarrow> ChatMessage" where
  "modelMessage JSON_parse responseText =
     \<lparr>msg_role = Role_model,
      msg_text = trim (replace_block responseText),
      msg_jumperSuggestion =
        (case extract_jumper JSON_parse responseText of
           None \<Rightarrow> None
         | Some j \<Rightarrow> if truthy j then Some j else None)\<rparr>"

text \<open>
  \<open>handleSendMessage\<close> up to its \<open>await\<close>: nothing happens without a chat session or while a
  send is in flight; otherwise the busy flag is set, the user's message is appended to the
  transcript and \<open>sendMessage\<close> is called. The first component is the text sent to the model.
\<close>

definition handleSendMessage_start ::
  "(jsnumber \<Rightarrow> string) \<Rightarrow> string \<Rightarrow> App \<Rightarrow> string option \<times> App" where
  "handleSendMessage_start number_str message s =
     (if chat s = None \<or> isChatLoading s then (None, s)
      else
        let selectedComponent =
              (case analysis s of
                 None \<Rightarrow> None
               | Some a \<Rightarrow> find (\<lambda>c. Some (designator c) = selectedId s) (components a));
            userMessage = \<lparr>msg_role = Role_user, msg_text = message, msg_jumperSuggestion = None\<rparr>;
            voltage = (case boardVoltage s of
                         None \<Rightarrow> None
                       | Some bv \<Rightarrow> if number_truthy bv then Some bv else None)
        in (Some (contextualMessage number_str message selectedComponent voltage),
            s\<lparr>isChatLoading := True, chatHistory := chatHistory s @ [userMessage]\<rparr>))"

text \<open>\<open>handleSendMessage\<close> after its \<open>await\<close>, on a reply with text \<open>responseText\<close>.\<close>

definition handleSendMessage_reply :: "(string \<Rightarrow> json option) \<Rightarrow> string \<Rightarrow> App \<Rightarrow> App" where
  "handleSendMessage_reply JSON_parse responseText s =
     (let jumper = extract_jumper JSON_parse responseText;
          s1 = (case jumper of None \<Rightarrow> s | Some j \<Rightarrow> s\<lparr>jumperSuggestion := Some j\<rparr>)
      in s1\<lparr>chatHistory := chatHistory s1 @ [modelMessage JSON_parse responseText],
            isChatLoading := False\<rparr>)"

text \<open>\<open>handleSendMessage\<close> after its \<open>await\<close>, when the send fails.\<close>

definition handleSendMessage_failed :: "App \<Rightarrow> App" where
  "handleSendMessage_failed s =
     s\<lparr>chatHistory := chatHistory s @
          [\<lparr>msg_role = Role_model, msg_text = ''Sorry, I encountered an error. Please try again.'',
            msg_jumperSuggestion = None\<rparr>],
       isChatLoading := False\<rparr>"

section \<open>The bill of materials (App.tsx, downloadBOM)\<close>

text \<open>A value of a row: a string or a number, as the array \<open>row\<close> holds them.\<close>

datatype cell = Str string | Num jsnumber

text \<open>The template literal \<open>"${v}"\<close>.\<close>

fun quoted :: "(jsnumber \<Rightarrow> string) \<Rightarrow> cell \<Rightarrow> string" where
  "quoted number_str (Str s) = [CHR 0x22] @ s @ [CHR 0x22]"
| "quoted number_str (Num n) = [CHR 0x22] @ number_str n @ [CHR 0x22]"

text \<open>\<open>Array.prototype.join\<close> on strings.\<close>

fun join :: "string \<Rightarrow> string list \<Rightarrow> string" where
  "join sep [] = []"
| "join sep [s] = s"
| "join sep (s # t # ss) = s @ sep @ join sep (t # ss)"

definition headers :: "string list" where
  "headers = [''Designator'', ''MPN'', ''Presence'', ''Condition'', ''Confidence'',
              ''Temperature (C)'', ''Max Voltage (V)'', ''Datasheet'']"

fun presence_str :: "Presence \<Rightarrow> string" where
  "presence_str Presence_missing = ''missing''"
| "presence_str Presence_ok = ''ok''"

fun condition_str :: "Condition \<Rightarrow> string" where
  "condition_str Condition_burnt = ''burnt''"
| "condition_str Condition_corroded = ''corroded''"
| "condition_str Condition_ok = ''ok''"

text \<open>The array \<open>row\<close> of a component; \<open>??\<close> puts \<open>'N/A'\<close> for an absent optional field.\<close>

definition row :: "Component \<Rightarrow> cell list" where
  "row c =
     [Str (designator c),
      Str (mpn c),
      Str (presence_str (presence c)),
      Str (condition_str (condition c)),
      Num (confidence c),
      (case temperature c of None \<Rightarrow> Str ''N/A'' | Some t \<Rightarrow> Num t),
      (case maxVoltage c of None \<Rightarrow> Str ''N/A'' | Some v \<Rightarrow> Num v),
      (case datasheetUrl c of None \<Rightarrow> Str ''N/A'' | Some u \<Rightarrow> Str u)]"

text \<open>The rows after the \<open>forEach\<close>: the header line, then one pushed line per component.\<close>

definition csvRows :: "(jsnumber \<Rightarrow> string) \<Rightarrow> Component list \<Rightarrow> string list" where
  "csvRows number_str cs =
     foldl (\<lambda>rows c. rows @ [join '','' (map (quoted number_str) (row c))]) [join '','' headers] cs"

text \<open>The content of the downloaded file; nothing is produced without an analysis.\<close>

definition downloadBOM :: "(jsnumber \<Rightarrow> string) \<Rightarrow> App \<Rightarrow> string option" where
  "downloadBOM number_str s =
     (case analysis s of
        None \<Rightarrow> None
      | Some a \<Rightarrow> Some (join [CHR 0x0A] (csvRows number_str (components a))))"

section \<open>Example data\<close>

text \<open>
  The component of the specification's export scenario, a second component with a maximum
  voltage of 3.3 V, an analysis holding both, and two image files. A decimal such as 3.3
  stands for the double nearest to it; nothing below depends on the difference.
\<close>

definition example_bbox :: BoundingBox where
  "example_bbox = \<lparr>bbox_x = Finite 0.1, bbox_y = Finite 0.2, bbox_w = Finite 0.3, bbox_h = Finite 0.4\<rparr>"

definition R17 :: Component where
  "R17 = \<lparr>designator = ''R17'', mpn = [], bbox = example_bbox, presence = Presence_ok,
     condition = Condition_ok, confidence = Finite 0.92, temperature = None,
     datasheetUrl = None, maxVoltage = None\<rparr>"

definition U1 :: Component where
  "U1 = \<lparr>designator = ''U1'', mpn = ''LM1117'', bbox = example_bbox, presence = Presence_ok,
     condition = Condition_burnt, confidence = Finite 0.8, temperature = Some (Finite 85),
     datasheetUrl = None, maxVoltage = Some (Finite 3.3)\<rparr>"

definition example_analysis :: "Component list \<Rightarrow> PcbAnalysis" where
  "example_analysis cs = \<lparr>components = cs, defects = [], summary = ''Board inspected.'',
     advice = \<lparr>quick_actions = [], alternatives = [], next_steps = [], repair_cost = None\<rparr>\<rparr>"

definition fileA :: File where
  "fileA = \<lparr>file_name = ''a.png'', file_type = ''image/png'', file_base64 = ''QUFB''\<rparr>"

definition fileB :: File where
  "fileB = \<lparr>file_name = ''b.png'', file_type = ''image/png'', file_base64 = ''QkJC''\<rparr>"

text \<open>
  States of the application: \<open>ready\<close> after the upload of the first file and the arrival of
  its analysis, with the chat session the effect creates; \<open>asking\<close> with a selected component
  and a board voltage; \<open>chatting\<close> while the reply to a chat message is awaited; \<open>exported\<close>
  holding the analysis of the export scenario.
\<close>

definition ready :: App where
  "ready = chat_effect (Some ''key'')
     (handleImageUpload_settle (Inr (example_analysis [R17, U1]))
        (handleImageUpload_start fileA ''blob:a'' initial))"

definition asking :: App where
  "asking = ready\<lparr>selectedId := Some ''U1'', boardVoltage := Some (Finite 5)\<rparr>"





definition exported :: App where
  "exported = initial\<lparr>analysis := Some (example_analysis [R17]), imageFile := Some fileA,
                      imageUrl := Some ''blob:a''\<rparr>"

text \<open>
  Replies of the analysis service and the values \<open>JSON.parse\<close> returns for them: one with
  both lists, one whose \<open>components\<close> is \<open>null\<close>.
\<close>

definition reply_ok :: string where
  "reply_ok = '' {\"components\":[],\"defects\":[]} ''"

definition parsed_ok :: json where
  "parsed_ok = JObject [(''components'', JArray []), (''defects'', JArray [])]"

definition reply_null :: string where
  "reply_null = ''{\"components\":null,\"defects\":[]}''"

definition parsed_null :: json where
  "parsed_null = JObject [(''components'', JNull), (''defects'', JArray [])]"

definition parse_analysis_examples :: "string \<Rightarrow> json option" where
  "parse_analysis_examples t =
     (if t = ''{\"components\":[],\"defects\":[]}'' then Some parsed_ok
      else if t = reply_null then Some parsed_null
      else None)"

text \<open>
  A chat reply with the jumper block of the system instruction, and the value \<open>JSON.parse\<close>
  returns for the text of the block.
\<close>

definition jumper_body :: string where
  "jumper_body = ''\"jumper\":{\"from\":{\"x\":0.25,\"y\":0.35},\"to\":{\"x\":0.28,\"y\":0.55}}''"

definition jumper_value :: json where
  "jumper_value = JObject
     [(''from'', JObject [(''x'', JNumber (Finite 0.25)), (''y'', JNumber (Finite 0.35))]),
      (''to'', JObject [(''x'', JNumber (Finite 0.28)), (''y'', JNumber (Finite 0.55))])]"

definition jumper_reply :: string where
  "jumper_reply = ''Add a wire.'' @ [CHR 0x0A] @ ''```json'' @ [CHR 0x0A] @ ''{'' @ jumper_body @ ''}''
                    @ [CHR 0x0A] @ ''```'' @ [CHR 0x0A]"

definition parse_jumper_examples :: "string \<Rightarrow> json option" where
  "parse_jumper_examples t =
     (if t = ''{'' @ jumper_body @ ''}'' then Some (JObject [(''jumper'', jumper_value)])
      else None)"

section \<open>Voltage mismatch\<close>

text \<open>
  Claim C5, as the code has it. The conditions on \<open>boardVoltage\<close> and \<open>maxVoltage\<close> are
  JavaScript truthiness, not a comparison with \<open>null\<close>: a component is classified as
  voltage-mismatched exactly when the board voltage and the component's maximum voltage are
  both present and truthy (neither zero nor NaN) and the board voltage is greater than the
  maximum voltage. Without a board voltage no component is mismatched, and a board voltage of
  5 with a maximum voltage of 3.3 is a mismatch. A component that is present and in good
  condition counts among the components with issues of the results panel exactly when it is
  mismatched.
\<close>

theorem voltage_mismatch_truthy:
  "(hasVoltageMismatch voltage c \<longleftrightarrow>
      (\<exists>bv mv. voltage = Some bv \<and> maxVoltage c = Some mv
         \<and> number_truthy bv \<and> number_truthy mv \<and> number_gt bv mv))
   \<and> \<not> hasVoltageMismatch None c
   \<and> (maxVoltage c = Some (Finite 3.3) \<longrightarrow> hasVoltageMismatch (Some (Finite 5)) c)
   \<and> (presence c = Presence_ok \<and> condition c = Condition_ok \<longrightarrow>
        (c \<in> set (componentsWithIssues voltage a)
           \<longleftrightarrow> c \<in> set (components a) \<and> hasVoltageMismatch voltage c))"
  by (auto simp: hasVoltageMismatch_def componentsWithIssues_def issue_pred_def split: option.splits)

theorem voltage_mismatch_truthy_witness:
  "hasVoltageMismatch (Some (Finite 5)) U1 \<and> \<not> hasVoltageMismatch None U1
   \<and> maxVoltage U1 = Some (Finite 3.3)"
  using voltage_mismatch_truthy [of "Some (Finite 5)" U1] by (simp add: U1_def)

text \<open>
  The claim as written fails for a maximum voltage of zero: the board voltage 5 and the
  maximum voltage 0 are both not null and 5 is greater than 0, yet the component is not
  classified as mismatched.
\<close>

theorem voltage_mismatch_null_check_counterexample:
  "Some (Finite 5) \<noteq> None \<and> maxVoltage (R17\<lparr>maxVoltage := Some (Finite 0)\<rparr>) \<noteq> None
   \<and> number_gt (Finite 5) (Finite 0)
   \<and> \<not> hasVoltageMismatch (Some (Finite 5)) (R17\<lparr>maxVoltage := Some (Finite 0)\<rparr>)"
  by (simp add: hasVoltageMismatch_def R17_def)

section \<open>Selection\<close>






section \<open>Components with issues and components without\<close>

lemma ok_pred_complement: "ok_pred bv c = (\<not> issue_pred bv c)"
  by (auto simp: ok_pred_def issue_pred_def)

lemma filter_split_mset: "mset (filter P xs) + mset (filter (\<lambda>x. \<not> P x) xs) = mset xs"
  by (induction xs) auto

lemma filter_split_disjoint: "set (filter P xs) \<inter> set (filter (\<lambda>x. \<not> P x) xs) = {}"
  by auto

text \<open>
  Claim C10. In the explorer view the two lists together hold every component of the
  search-filtered list as often as that list does, and no component is in both; the same holds
  in the PDF report for the whole component list.
\<close>

theorem issues_ok_partition:
  "mset (explorer_componentsWithIssues searchTerm bv a) + mset (explorer_okComponents searchTerm bv a)
     = mset (filtered searchTerm (components a))
   \<and> set (explorer_componentsWithIssues searchTerm bv a) \<inter> set (explorer_okComponents searchTerm bv a) = {}
   \<and> mset (pdf_componentsWithIssues bv a) + mset (pdf_okComponents bv a) = mset (components a)
   \<and> set (pdf_componentsWithIssues bv a) \<inter> set (pdf_okComponents bv a) = {}"
proof -
  have eq: "ok_pred bv = (\<lambda>c. \<not> issue_pred bv c)"
    by (rule ext) (rule ok_pred_complement)
  show ?thesis
    unfolding explorer_componentsWithIssues_def explorer_okComponents_def
      pdf_componentsWithIssues_def pdf_okComponents_def eq
    by (simp only: filter_split_mset filter_split_disjoint simp_thms)
qed

theorem issues_ok_partition_witness:
  "explorer_componentsWithIssues ''1'' (Some (Finite 5)) (example_analysis [R17, U1]) = [U1]
   \<and> explorer_okComponents ''1'' (Some (Finite 5)) (example_analysis [R17, U1]) = [R17]
   \<and> mset [U1] + mset [R17] = mset (filtered ''1'' (components (example_analysis [R17, U1])))
   \<and> set [U1] \<inter> set [R17] = {}"
proof -
  have a: "explorer_componentsWithIssues ''1'' (Some (Finite 5)) (example_analysis [R17, U1]) = [U1]"
    by (simp add: explorer_componentsWithIssues_def filtered_def example_analysis_def R17_def U1_def
          toLowerCase_def lower_char_def issue_pred_def hasVoltageMismatch_def)
  have b: "explorer_okComponents ''1'' (Some (Finite 5)) (example_analysis [R17, U1]) = [R17]"
    by (simp add: explorer_okComponents_def filtered_def example_analysis_def R17_def U1_def
          toLowerCase_def lower_char_def ok_pred_def hasVoltageMismatch_def)
  show ?thesis
    using issues_ok_partition [of "''1''" "Some (Finite 5)" "example_analysis [R17, U1]"]
    by (simp only: a b simp_thms)
qed

section \<open>The credential\<close>

text \<open>
  Claim C9. Without a credential (the variable unset or empty) \<open>analyzePcbImage\<close> fails
  with ConfigurationError for every image, whatever the service would answer, and the list of
  requests sent over the network is the one it was called with: nothing was sent. With a
  credential exactly one request is sent and the failure is never ConfigurationError.
\<close>

theorem no_credential_no_request:
  "(API_KEY = None \<or> API_KEY = Some [] \<longrightarrow>
      analyzePcbImage API_KEY generateContent JSON_parse img network
        = (Inl ConfigurationError, network))
   \<and> (API_KEY = Some key \<and> key \<noteq> [] \<longrightarrow>
        length (snd (analyzePcbImage API_KEY generateContent JSON_parse img network))
          = Suc (length network)
        \<and> fst (analyzePcbImage API_KEY generateContent JSON_parse img network)
            \<noteq> Inl ConfigurationError)"
  by (auto simp: analyzePcbImage_def Let_def parse_reply_def split: sum.splits option.splits)

theorem no_credential_no_request_witness:
  "analyzePcbImage None (\<lambda>r. Inr ''{}'') (\<lambda>t. Some (JObject [])) fileA [] = (Inl ConfigurationError, [])
   \<and> analyzePcbImage (Some []) (\<lambda>r. Inr ''{}'') (\<lambda>t. Some (JObject [])) fileA [] = (Inl ConfigurationError, [])
   \<and> length (snd (analyzePcbImage (Some ''k'') (\<lambda>r. Inr ''{}'') (\<lambda>t. Some (JObject [])) fileA [])) = 1"
  using no_credential_no_request [of None "\<lambda>r. Inr ''{}''" "\<lambda>t. Some (JObject [])" fileA "[]"]
        no_credential_no_request [of "Some []" "\<lambda>r. Inr ''{}''" "\<lambda>t. Some (JObject [])" fileA "[]"]
        no_credential_no_request [of "Some ''k''" "\<lambda>r. Inr ''{}''" "\<lambda>t. Some (JObject [])" fileA "[]" "''k''"]
  by simp

section \<open>Upload and reset\<close>

lemma ready_eq:
  "ready = initial\<lparr>analysis := Some (example_analysis [R17, U1]), imageFile := Some fileA,
                   imageUrl := Some ''blob:a'', chat := Some (createChat ''key'')\<rparr>"
  by (simp add: ready_def chat_effect_def handleImageUpload_settle_def handleImageUpload_start_def
        handleReset_def initial_def)

lemma asking_fields:
  "chat asking = Some (createChat ''key'')" "\<not> isChatLoading asking"
  "analysis asking = Some (example_analysis [R17, U1])" "selectedId asking = Some ''U1''"
  "boardVoltage asking = Some (Finite 5)" "chatHistory asking = []"
  by (simp_all add: asking_def ready_eq initial_def)





section \<open>Replies to superseded requests\<close>

lemma superseded_run:
  "run (Some ''key'') start [Upload fileA ''blob:a'', StartOver, Upload fileB ''blob:b'']
     = \<lparr>app = initial\<lparr>imageFile := Some fileB, imageUrl := Some ''blob:b'', isLoading := True\<rparr>,
        inflight = [fileA, fileB]\<rparr>"
  by (simp add: run_def start_def handleImageUpload_start_def handleReset_def chat_effect_def initial_def)

text \<open>
  Claim C2, as the code has it. The controller has no guard against a stale reply. With a
  credential, when the reply to any request that is in flight arrives, also to one that a
  reset or a newer upload has superseded: a result becomes the current analysis; a failure
  becomes the current error and leaves the analysis as it was; either way the loading flag is
  cleared and the image stays the one of the current session.
\<close>

theorem stale_reply_is_stored:
  "file \<in> set (inflight c) \<Longrightarrow> key \<noteq> [] \<Longrightarrow>
     (let s' = app (step (Some key) c (Settled file (Inr result))) in
        analysis s' = Some result \<and> imageFile s' = imageFile (app c)
        \<and> imageUrl s' = imageUrl (app c) \<and> \<not> isLoading s')
     \<and> (let s' = app (step (Some key) c (Settled file (Inl err))) in
        error s' = Some (error_message err) \<and> analysis s' = analysis (app c)
        \<and> imageFile s' = imageFile (app c) \<and> imageUrl s' = imageUrl (app c) \<and> \<not> isLoading s')"
  by (simp add: handleImageUpload_settle_def chat_effect_def request_outcome_def Let_def)

theorem stale_reply_is_stored_witness:
  "fileA \<in> set (inflight (run (Some ''key'') start [Upload fileA ''blob:a'', StartOver, Upload fileB ''blob:b'']))
   \<and> analysis (app (step (Some ''key'') (run (Some ''key'') start [Upload fileA ''blob:a'', StartOver, Upload fileB ''blob:b''])
        (Settled fileA (Inr (example_analysis [R17]))))) = Some (example_analysis [R17])
   \<and> imageFile (app (step (Some ''key'') (run (Some ''key'') start [Upload fileA ''blob:a'', StartOver, Upload fileB ''blob:b''])
        (Settled fileA (Inr (example_analysis [R17]))))) = Some fileB
   \<and> error (app (step (Some ''key'') (run (Some ''key'') start [Upload fileA ''blob:a'', StartOver, Upload fileB ''blob:b''])
        (Settled fileA (Inl (ServiceError ''503''))))) = Some ''503''
   \<and> imageFile (app (step (Some ''key'') (run (Some ''key'') start [Upload fileA ''blob:a'', StartOver, Upload fileB ''blob:b''])
        (Settled fileA (Inl (ServiceError ''503''))))) = Some fileB"
proof -
  have h: "fileA \<in> set (inflight (run (Some ''key'') start [Upload fileA ''blob:a'', StartOver, Upload fileB ''blob:b'']))"
    unfolding superseded_run by simp
  have k: "''key'' \<noteq> []" by simp
  have i: "imageFile (app (run (Some ''key'') start [Upload fileA ''blob:a'', StartOver, Upload fileB ''blob:b''])) = Some fileB"
    unfolding superseded_run by simp
  note T = stale_reply_is_stored [OF h k, of "example_analysis [R17]" "ServiceError ''503''", unfolded Let_def]
  show ?thesis
    using h T [THEN conjunct1] T [THEN conjunct2] unfolding i by simp
qed

text \<open>
  The claim as written fails: with a credential, the first file is uploaded, Start Over is
  clicked, the second file is uploaded, and then the reply to the first request arrives. Its
  result is stored as the analysis of the session of the second file, whose own request is
  still in flight. When the reply to the second request arrives first, the late reply to the
  first one replaces it.
\<close>

theorem stale_reply_overwrites_counterexample:
  "inflight (run (Some ''key'') start [Upload fileA ''blob:a'', StartOver, Upload fileB ''blob:b'']) = [fileA, fileB]
   \<and> imageFile (app (run (Some ''key'') start [Upload fileA ''blob:a'', StartOver, Upload fileB ''blob:b''])) = Some fileB
   \<and> analysis (app (run (Some ''key'') start [Upload fileA ''blob:a'', StartOver, Upload fileB ''blob:b'',
        Settled fileA (Inr (example_analysis [R17]))])) = Some (example_analysis [R17])
   \<and> imageFile (app (run (Some ''key'') start [Upload fileA ''blob:a'', StartOver, Upload fileB ''blob:b'',
        Settled fileA (Inr (example_analysis [R17]))])) = Some fileB
   \<and> analysis (app (run (Some ''key'') start [Upload fileA ''blob:a'', StartOver, Upload fileB ''blob:b'',
        Settled fileB (Inr (example_analysis [U1])), Settled fileA (Inr (example_analysis [R17]))]))
       = Some (example_analysis [R17])"
  by (simp add: run_def start_def handleImageUpload_start_def handleImageUpload_settle_def
        handleReset_def chat_effect_def request_outcome_def initial_def fileA_def fileB_def)

section \<open>The reply to the analysis request\<close>

lemma analysis_try_Some_iff:
  "analysis_try P t = Some v \<longleftrightarrow>
     (P t = Some v \<and> (\<exists>kvs c d. v = JObject kvs \<and> map_of kvs ''components'' = Some c \<and> truthy c
                         \<and> map_of kvs ''defects'' = Some d \<and> truthy d))"
proof (cases "P t")
  case None
  then show ?thesis by (simp add: analysis_try_def)
next
  case (Some p)
  show ?thesis
  proof (cases p)
    case (JObject kvs)
    with Some show ?thesis
      by (auto simp: analysis_try_def split: option.splits access.splits)
  qed (use Some in \<open>auto simp: analysis_try_def\<close>)
qed

lemma parse_reply_Inr_iff:
  "parse_reply P reply = Inr v \<longleftrightarrow>
     (P (trim reply) = Some v \<and> (\<exists>kvs c d. v = JObject kvs \<and> map_of kvs ''components'' = Some c \<and> truthy c
                         \<and> map_of kvs ''defects'' = Some d \<and> truthy d))"
  using analysis_try_Some_iff [of P "trim reply" v]
  by (auto simp: parse_reply_def Let_def split: option.splits)

lemma parse_reply_cases: "parse_reply P reply = Inl MalformedResponse \<or> (\<exists>v. parse_reply P reply = Inr v)"
  by (auto simp: parse_reply_def Let_def split: option.splits)

lemma analyze_with_key:
  "key \<noteq> [] \<Longrightarrow> fst (analyzePcbImage (Some key) (\<lambda>r. Inr reply) P img network) = parse_reply P reply"
  by (simp add: analyzePcbImage_def Let_def)

text \<open>
  Claim C1, as the code has it. With a credential and a service that answers with the text
  \<open>reply\<close>: \<open>analyzePcbImage\<close> returns a value exactly when the trimmed reply parses as JSON
  to an object whose \<open>components\<close> and \<open>defects\<close> are both present and truthy, and the value
  returned is then the parsed value itself; in every other case (no parse, a key absent, a key
  with the value null, false, 0 or the empty string) it fails with MalformedResponse.
\<close>

theorem analyze_returns_parsed_or_malformed:
  assumes "key \<noteq> []"
  shows "((fst (analyzePcbImage (Some key) (\<lambda>r. Inr reply) JSON_parse img network) = Inr v)
       = (JSON_parse (trim reply) = Some v
          \<and> (\<exists>kvs c d. v = JObject kvs \<and> map_of kvs ''components'' = Some c \<and> truthy c
                         \<and> map_of kvs ''defects'' = Some d \<and> truthy d)))
   \<and> (fst (analyzePcbImage (Some key) (\<lambda>r. Inr reply) JSON_parse img network) = Inl MalformedResponse
       \<or> (\<exists>w. fst (analyzePcbImage (Some key) (\<lambda>r. Inr reply) JSON_parse img network) = Inr w))"
proof -
  have e: "fst (analyzePcbImage (Some key) (\<lambda>r. Inr reply) JSON_parse img network)
             = parse_reply JSON_parse reply"
    using assms by (rule analyze_with_key)
  show ?thesis
    unfolding e
    using parse_reply_Inr_iff [of JSON_parse reply v] parse_reply_cases [of JSON_parse reply]
    by simp
qed

lemma trim_reply_ok: "trim reply_ok = ''{\"components\":[],\"defects\":[]}''"
  by (simp add: trim_def reply_ok_def is_space_def)

theorem analyze_returns_parsed_or_malformed_witness:
  "fst (analyzePcbImage (Some ''k'') (\<lambda>r. Inr reply_ok) parse_analysis_examples fileA []) = Inr parsed_ok
   \<and> parse_analysis_examples (trim reply_ok) = Some parsed_ok"
proof -
  have k: "''k'' \<noteq> []" by simp
  have p: "parse_analysis_examples (trim reply_ok) = Some parsed_ok"
    by (simp add: trim_reply_ok parse_analysis_examples_def)
  have q: "\<exists>kvs c d. parsed_ok = JObject kvs \<and> map_of kvs ''components'' = Some c \<and> truthy c
                         \<and> map_of kvs ''defects'' = Some d \<and> truthy d"
    by (simp add: parsed_ok_def)
  show ?thesis
    using p q analyze_returns_parsed_or_malformed [OF k, of reply_ok parse_analysis_examples fileA "[]" parsed_ok]
    by simp
qed

text \<open>
  The claim as written fails for a key that is present with a falsy value: the reply parses,
  the parsed object has both keys, and the call fails with MalformedResponse.
\<close>

theorem analyze_null_components_counterexample:
  "parse_analysis_examples reply_null = Some parsed_null
   \<and> map_of [(''components'', JNull), (''defects'', JArray [])] ''components'' = Some JNull
   \<and> map_of [(''components'', JNull), (''defects'', JArray [])] ''defects'' = Some (JArray [])
   \<and> parsed_null = JObject [(''components'', JNull), (''defects'', JArray [])]
   \<and> fst (analyzePcbImage (Some ''k'') (\<lambda>r. Inr reply_null) parse_analysis_examples fileA []) = Inl MalformedResponse"
  by (simp add: analyzePcbImage_def parse_reply_def analysis_try_def parse_analysis_examples_def reply_null_def
        parsed_null_def trim_def is_space_def)

section \<open>The text sent to the chat session\<close>

text \<open>
  Claim C7, as the code has it. For a message that is sent (there is a chat session and no
  send is in flight) the text passed to the model is the message between a prefix and a
  suffix. The prefix is the description of the first component whose designator is the
  selected id, and empty when there is none. The suffix is the board-voltage note when the
  board voltage is present and truthy, and empty when it is absent, zero or NaN. The entry
  appended to the transcript for the user holds the message itself.
\<close>

theorem send_decorates_outbound_only:
  assumes "chat s = Some session" and "\<not> isChatLoading s"
  shows "\<exists>pre post s'.
      handleSendMessage_start number_str msg s = (Some (pre @ msg @ post), s')
    \<and> chatHistory s' = chatHistory s @ [\<lparr>msg_role = Role_user, msg_text = msg, msg_jumperSuggestion = None\<rparr>]
    \<and> pre = (case (case analysis s of None \<Rightarrow> None
                    | Some a \<Rightarrow> find (\<lambda>c. Some (designator c) = selectedId s) (components a)) of
               None \<Rightarrow> []
             | Some c \<Rightarrow> ''Context: I have selected component '' @ designator c @ '' ('' @ mpn c
                    @ ''). Its condition is '' @ [CHR 0x27] @ getStatusText c @ [CHR 0x27]
                    @ ''.'' @ [CHR 0x0A, CHR 0x0A] @ ''My question: '')
    \<and> post = (case boardVoltage s of
                None \<Rightarrow> []
              | Some bv \<Rightarrow> if number_truthy bv
                  then [CHR 0x0A] @ ''(Note: The board voltage is set to '' @ number_str bv @ ''V).''
                  else [])"
  using assms
  by (auto simp: handleSendMessage_start_def contextualMessage_def Let_def split: option.splits)

theorem send_decorates_outbound_only_witness:
  "chat asking = Some (createChat ''key'') \<and> \<not> isChatLoading asking
   \<and> fst (handleSendMessage_start (\<lambda>n. ''5'') ''Why is U1 hot?'' asking)
       = Some (''Context: I have selected component U1 (LM1117). Its condition is '' @ [CHR 0x27]
               @ ''Burnt'' @ [CHR 0x27] @ ''.'' @ [CHR 0x0A, CHR 0x0A] @ ''My question: ''
               @ ''Why is U1 hot?'' @ [CHR 0x0A] @ ''(Note: The board voltage is set to 5V).'')
   \<and> chatHistory (snd (handleSendMessage_start (\<lambda>n. ''5'') ''Why is U1 hot?'' asking))
       = [\<lparr>msg_role = Role_user, msg_text = ''Why is U1 hot?'', msg_jumperSuggestion = None\<rparr>]"
proof -
  have h1: "chat asking = Some (createChat ''key'')"
    by (rule asking_fields)
  have h2: "\<not> isChatLoading asking"
    by (rule asking_fields)
  note a = asking_fields(3-6)
  from send_decorates_outbound_only [OF h1 h2, of "\<lambda>n. ''5''" "''Why is U1 hot?''"]
  obtain pre post s' where
    r: "handleSendMessage_start (\<lambda>n. ''5'') ''Why is U1 hot?'' asking = (Some (pre @ ''Why is U1 hot?'' @ post), s')"
    and t: "chatHistory s' = chatHistory asking @ [\<lparr>msg_role = Role_user, msg_text = ''Why is U1 hot?'', msg_jumperSuggestion = None\<rparr>]"
    and p: "pre = (case (case analysis asking of None \<Rightarrow> None
                    | Some a \<Rightarrow> find (\<lambda>c. Some (designator c) = selectedId asking) (components a)) of
               None \<Rightarrow> []
             | Some c \<Rightarrow> ''Context: I have selected component '' @ designator c @ '' ('' @ mpn c
                    @ ''). Its condition is '' @ [CHR 0x27] @ getStatusText c @ [CHR 0x27]
                    @ ''.'' @ [CHR 0x0A, CHR 0x0A] @ ''My question: '')"
    and q: "post = (case boardVoltage asking of
                None \<Rightarrow> []
              | Some bv \<Rightarrow> if number_truthy bv
                  then [CHR 0x0A] @ ''(Note: The board voltage is set to '' @ (\<lambda>n. ''5'') bv @ ''V).''
                  else [])"
    by blast
  have p': "pre = ''Context: I have selected component U1 (LM1117). Its condition is '' @ [CHR 0x27]
               @ ''Burnt'' @ [CHR 0x27] @ ''.'' @ [CHR 0x0A, CHR 0x0A] @ ''My question: ''"
    unfolding p a by (simp add: example_analysis_def R17_def U1_def)
  have q': "post = [CHR 0x0A] @ ''(Note: The board voltage is set to 5V).''"
    unfolding q a by simp
  show ?thesis
    using h1 h2 r t unfolding p' q' a by simp
qed

text \<open>
  The claim as written fails for a board voltage of zero: it is set, and the text sent is the
  bare message, without the note.
\<close>

theorem send_zero_voltage_counterexample:
  "boardVoltage (ready\<lparr>boardVoltage := Some (Finite 0)\<rparr>) = Some (Finite 0)
   \<and> chat (ready\<lparr>boardVoltage := Some (Finite 0)\<rparr>) = Some (createChat ''key'')
   \<and> \<not> isChatLoading (ready\<lparr>boardVoltage := Some (Finite 0)\<rparr>)
   \<and> fst (handleSendMessage_start (\<lambda>n. ''0'') ''Is it safe?'' (ready\<lparr>boardVoltage := Some (Finite 0)\<rparr>))
       = Some ''Is it safe?''"
  by (simp add: ready_eq initial_def handleSendMessage_start_def contextualMessage_def Let_def example_analysis_def)

section \<open>The exported bill of materials\<close>

lemma foldl_push: "foldl (\<lambda>rows c. rows @ [f c]) acc cs = acc @ map f cs"
  by (induction cs arbitrary: acc) auto

lemma csvRows_eq:
  "csvRows ns cs = join '','' headers # map (\<lambda>c. join '','' (map (quoted ns) (row c))) cs"
  by (simp add: csvRows_def foldl_push)

lemma header_line:
  "join '','' headers = ''Designator,MPN,Presence,Condition,Confidence,Temperature (C),Max Voltage (V),Datasheet''"
  by (simp add: headers_def)

text \<open>
  Claim C8, as the code has it. Without an analysis nothing is exported. With one, the file is
  the lines joined by newlines: first the header
  \<open>Designator,MPN,Presence,Condition,Confidence,Temperature (C),Max Voltage (V),Datasheet\<close>,
  not quoted, then one line per component in order, its eight values each between double
  quotes and joined by commas. An absent temperature, maximum voltage or datasheet URL is
  written \<open>N/A\<close>; the MPN is written as it is, so an empty MPN gives the empty quoted field.
\<close>

theorem bom_csv_layout:
  "(analysis s = None \<longrightarrow> downloadBOM ns s = None)
   \<and> (analysis s = Some a \<longrightarrow>
        downloadBOM ns s = Some (join [CHR 0x0A] (csvRows ns (components a)))
      \<and> length (csvRows ns (components a)) = Suc (length (components a))
      \<and> csvRows ns (components a) ! 0
          = ''Designator,MPN,Presence,Condition,Confidence,Temperature (C),Max Voltage (V),Datasheet''
      \<and> (\<forall>i < length (components a).
            csvRows ns (components a) ! Suc i = join '','' (map (quoted ns) (row (components a ! i)))))
   \<and> map (quoted ns) (row c) =
        [[CHR 0x22] @ designator c @ [CHR 0x22],
         [CHR 0x22] @ mpn c @ [CHR 0x22],
         [CHR 0x22] @ presence_str (presence c) @ [CHR 0x22],
         [CHR 0x22] @ condition_str (condition c) @ [CHR 0x22],
         [CHR 0x22] @ ns (confidence c) @ [CHR 0x22],
         [CHR 0x22] @ (case temperature c of None \<Rightarrow> ''N/A'' | Some t \<Rightarrow> ns t) @ [CHR 0x22],
         [CHR 0x22] @ (case maxVoltage c of None \<Rightarrow> ''N/A'' | Some v \<Rightarrow> ns v) @ [CHR 0x22],
         [CHR 0x22] @ (case datasheetUrl c of None \<Rightarrow> ''N/A'' | Some u \<Rightarrow> u) @ [CHR 0x22]]"
proof -
  have cells: "map (quoted ns) (row c) =
        [[CHR 0x22] @ designator c @ [CHR 0x22],
         [CHR 0x22] @ mpn c @ [CHR 0x22],
         [CHR 0x22] @ presence_str (presence c) @ [CHR 0x22],
         [CHR 0x22] @ condition_str (condition c) @ [CHR 0x22],
         [CHR 0x22] @ ns (confidence c) @ [CHR 0x22],
         [CHR 0x22] @ (case temperature c of None \<Rightarrow> ''N/A'' | Some t \<Rightarrow> ns t) @ [CHR 0x22],
         [CHR 0x22] @ (case maxVoltage c of None \<Rightarrow> ''N/A'' | Some v \<Rightarrow> ns v) @ [CHR 0x22],
         [CHR 0x22] @ (case datasheetUrl c of None \<Rightarrow> ''N/A'' | Some u \<Rightarrow> u) @ [CHR 0x22]]"
    by (simp add: row_def split: option.splits)
  have none: "analysis s = None \<longrightarrow> downloadBOM ns s = None"
    by (simp add: downloadBOM_def)
  have some: "analysis s = Some a \<longrightarrow>
        downloadBOM ns s = Some (join [CHR 0x0A] (csvRows ns (components a)))
      \<and> length (csvRows ns (components a)) = Suc (length (components a))
      \<and> csvRows ns (components a) ! 0
          = ''Designator,MPN,Presence,Condition,Confidence,Temperature (C),Max Voltage (V),Datasheet''
      \<and> (\<forall>i < length (components a).
            csvRows ns (components a) ! Suc i = join '','' (map (quoted ns) (row (components a ! i))))"
    by (simp add: downloadBOM_def csvRows_eq header_line)
  from none some cells show ?thesis by blast
qed

theorem bom_csv_layout_witness:
  "analysis exported = Some (example_analysis [R17])
   \<and> length (csvRows (\<lambda>n. ''0.92'') [R17]) = 2
   \<and> csvRows (\<lambda>n. ''0.92'') [R17] ! 1 = ''\"R17\",\"\",\"ok\",\"ok\",\"0.92\",\"N/A\",\"N/A\",\"N/A\"''
   \<and> downloadBOM (\<lambda>n. ''0.92'') exported = Some (join [CHR 0x0A] (csvRows (\<lambda>n. ''0.92'') [R17]))"
proof -
  have h: "analysis exported = Some (example_analysis [R17])"
    by (simp add: exported_def)
  have c: "components (example_analysis [R17]) = [R17]"
    by (simp add: example_analysis_def)
  have r: "join '','' (map (quoted (\<lambda>n. ''0.92'')) (row R17)) = ''\"R17\",\"\",\"ok\",\"ok\",\"0.92\",\"N/A\",\"N/A\",\"N/A\"''"
    by (simp add: row_def R17_def)
  show ?thesis
    using h bom_csv_layout [of exported "\<lambda>n. ''0.92''" "example_analysis [R17]" R17]
    by (simp add: c r)
qed

text \<open>
  The claim as written fails for the component of the export scenario: its MPN is empty and
  the MPN field of its line is the empty string between quotes, not the placeholder that the
  absent temperature gets.
\<close>

theorem bom_empty_mpn_counterexample:
  "mpn R17 = [] \<and> temperature R17 = None
   \<and> map (quoted (\<lambda>n. ''0.92'')) (row R17) ! 1 = [CHR 0x22, CHR 0x22]
   \<and> map (quoted (\<lambda>n. ''0.92'')) (row R17) ! 5 = [CHR 0x22] @ ''N/A'' @ [CHR 0x22]
   \<and> downloadBOM (\<lambda>n. ''0.92'') exported
       = Some (''Designator,MPN,Presence,Condition,Confidence,Temperature (C),Max Voltage (V),Datasheet''
               @ [CHR 0x0A] @ ''\"R17\",\"\",\"ok\",\"ok\",\"0.92\",\"N/A\",\"N/A\",\"N/A\"'')"
  by (simp add: R17_def row_def downloadBOM_def exported_def example_analysis_def csvRows_def headers_def)

section \<open>The jumper suggestion of a chat reply\<close>

text \<open>
  What the matcher returns is a block of the pattern; when the reply holds a block at all the
  matcher finds one, and the one it finds is the first: leftmost, and with the shortest body
  of those that start there.
\<close>

lemma not_space_fence [simp]: "\<not> is_space (CHR 0x60)" "\<not> is_space (CHR ''}'')" "\<not> is_space (CHR ''{'')"
  by (simp_all add: is_space_def)

lemma dropWhile_spaces_append:
  "\<forall>c\<in>set ws. is_space c \<Longrightarrow> dropWhile is_space (ws @ r) = dropWhile is_space r"
  by (induction ws) auto

lemma spaces_takeWhile: "\<forall>c\<in>set (takeWhile is_space s). is_space c"
  by (auto dest: set_takeWhileD)

lemma match_close_sound:
  "match_close s = Some (g, rest) \<Longrightarrow>
     \<exists>body ws. g = body @ ''}'' \<and> (\<forall>c\<in>set ws. is_space c) \<and> s = g @ ws @ ''```'' @ rest"
proof (induction s arbitrary: g)
  case Nil
  then show ?case by simp
next
  case (Cons c cs)
  show ?case
  proof (cases "c = CHR ''}'' \<and> prefix ''```'' (dropWhile is_space cs)")
    case True
    with Cons.prems have g: "g = ''}''" and r: "rest = drop 3 (dropWhile is_space cs)"
      by auto
    from True have d: "dropWhile is_space cs = ''```'' @ rest"
      unfolding r by (auto simp: prefix_def)
    have "cs = takeWhile is_space cs @ dropWhile is_space cs" by simp
    then have "c # cs = g @ takeWhile is_space cs @ ''```'' @ rest"
      using True g d by simp
    moreover have "g = [] @ ''}''" using g by simp
    ultimately show ?thesis using spaces_takeWhile by blast
  next
    case False
    with Cons.prems obtain g' where m: "match_close cs = Some (g', rest)" and g: "g = c # g'"
      by (auto split: option.splits)
    from Cons.IH [OF m] obtain body ws where
      "g' = body @ ''}''" "\<forall>c\<in>set ws. is_space c" "cs = g' @ ws @ ''```'' @ rest"
      by blast
    then have "g = (c # body) @ ''}''" "c # cs = g @ ws @ ''```'' @ rest"
      using g by simp_all
    with \<open>\<forall>c\<in>set ws. is_space c\<close> show ?thesis by blast
  qed
qed

lemma match_here_sound:
  assumes "match_here s = Some (g, rest)"
  shows "\<exists>ws body ws'. (\<forall>c\<in>set ws. is_space c) \<and> (\<forall>c\<in>set ws'. is_space c)
           \<and> g = ''{'' @ body @ ''}'' \<and> s = ''```json'' @ ws @ g @ ws' @ ''```'' @ rest"
proof -
  from assms have p: "prefix ''```json'' s"
    by (auto simp: match_here_def split: if_splits)
  then have s: "s = ''```json'' @ drop 7 s"
    by (auto simp: prefix_def)
  from assms p obtain cs g' where
    d: "dropWhile is_space (drop 7 s) = CHR ''{'' # cs" and m: "match_close cs = Some (g', rest)"
    and g: "g = CHR ''{'' # g'"
    by (auto simp: match_here_def split: if_splits list.splits option.splits)
  from match_close_sound [OF m] obtain body ws' where
    b: "g' = body @ ''}''" "\<forall>c\<in>set ws'. is_space c" "cs = g' @ ws' @ ''```'' @ rest"
    by blast
  have "drop 7 s = takeWhile is_space (drop 7 s) @ dropWhile is_space (drop 7 s)" by simp
  then have "drop 7 s = takeWhile is_space (drop 7 s) @ g @ ws' @ ''```'' @ rest"
    using d b g by simp
  with s have "s = ''```json'' @ takeWhile is_space (drop 7 s) @ g @ ws' @ ''```'' @ rest"
    by metis
  moreover have "g = ''{'' @ body @ ''}''" using g b by simp
  ultimately show ?thesis using spaces_takeWhile b(2) by blast
qed

lemma regex_match_sound:
  "regex_match s = Some (pre, g, rest) \<Longrightarrow>
     \<exists>ws body ws'. (\<forall>c\<in>set ws. is_space c) \<and> (\<forall>c\<in>set ws'. is_space c)
           \<and> g = ''{'' @ body @ ''}'' \<and> s = pre @ ''```json'' @ ws @ g @ ws' @ ''```'' @ rest"
proof (induction s arbitrary: pre)
  case Nil
  then show ?case by simp
next
  case (Cons c cs)
  show ?case
  proof (cases "match_here (c # cs)")
    case (Some r)
    with Cons.prems have "pre = []" "match_here (c # cs) = Some (g, rest)"
      by (auto split: prod.splits)
    with match_here_sound [of "c # cs" g rest] show ?thesis by simp
  next
    case None
    with Cons.prems obtain pre' where m: "regex_match cs = Some (pre', g, rest)" and p: "pre = c # pre'"
      by (auto split: option.splits)
    from Cons.IH [OF m] p show ?thesis by auto
  qed
qed

lemma match_close_complete:
  assumes "\<forall>c\<in>set ws'. is_space c"
  shows "\<exists>g r. match_close (body @ ''}'' @ ws' @ ''```'' @ rest) = Some (g, r)
               \<and> length g \<le> Suc (length body)"
proof (induction body)
  case Nil
  have "dropWhile is_space (ws' @ ''```'' @ rest) = ''```'' @ rest"
    using dropWhile_spaces_append [OF assms] by simp
  then show ?case by simp
next
  case (Cons c cs)
  then obtain g r where
    m: "match_close (cs @ ''}'' @ ws' @ ''```'' @ rest) = Some (g, r)" and l: "length g \<le> Suc (length cs)"
    by (elim exE conjE)
  show ?case
  proof (cases "c = CHR ''}'' \<and> prefix ''```'' (dropWhile is_space (cs @ ''}'' @ ws' @ ''```'' @ rest))")
    case True
    then show ?thesis by simp
  next
    case False
    then have "match_close ((c # cs) @ ''}'' @ ws' @ ''```'' @ rest) = Some (c # g, r)"
      using m by auto
    with l show ?thesis by simp
  qed
qed

lemma match_here_complete:
  assumes "\<forall>c\<in>set ws. is_space c" and "\<forall>c\<in>set ws'. is_space c"
  shows "\<exists>g r. match_here (''```json'' @ ws @ ''{'' @ body @ ''}'' @ ws' @ ''```'' @ rest) = Some (g, r)
               \<and> length g \<le> length body + 2"
proof -
  from match_close_complete [OF assms(2), of body rest] obtain g r where
    m: "match_close (body @ ''}'' @ ws' @ ''```'' @ rest) = Some (g, r)" and l: "length g \<le> Suc (length body)"
    by (elim exE conjE)
  have d: "dropWhile is_space (ws @ ''{'' @ body @ ''}'' @ ws' @ ''```'' @ rest)
          = CHR ''{'' # body @ ''}'' @ ws' @ ''```'' @ rest"
    using dropWhile_spaces_append [OF assms(1)] by simp
  have "match_here (''```json'' @ ws @ ''{'' @ body @ ''}'' @ ws' @ ''```'' @ rest) = Some (CHR ''{'' # g, r)"
    using d m by (simp add: match_here_def)
  with l show ?thesis by simp
qed

lemma match_here_nonempty: "match_here m = Some r \<Longrightarrow> m \<noteq> []"
  by (auto simp: match_here_def)

lemma regex_match_minimal_start:
  assumes "match_here m = Some (g0, r0)"
  shows "\<exists>pre g r. regex_match (p @ m) = Some (pre, g, r) \<and> length pre \<le> length p
           \<and> (length pre = length p \<longrightarrow> g = g0 \<and> r = r0)"
proof (induction p)
  case Nil
  from match_here_nonempty [OF assms] obtain c cs where "m = c # cs"
    by (cases m) auto
  with assms show ?case by simp
next
  case (Cons x xs)
  then obtain pre g r where
    m: "regex_match (xs @ m) = Some (pre, g, r)" and l: "length pre \<le> length xs"
    and e: "length pre = length xs \<longrightarrow> g = g0 \<and> r = r0"
    by (elim exE conjE)
  show ?case
  proof (cases "match_here (x # xs @ m)")
    case None
    then have "regex_match ((x # xs) @ m) = Some (x # pre, g, r)"
      using m by simp
    with l e show ?thesis by simp
  next
    case (Some a)
    then have "regex_match ((x # xs) @ m) = Some ([], fst a, snd a)"
      by (cases a) simp
    then show ?thesis by simp
  qed
qed


lemma block_at_split:
  assumes "block_at reply p w b w' q"
  shows "\<forall>c\<in>set w. is_space c" and "\<forall>c\<in>set w'. is_space c"
    and "reply = p @ ''```json'' @ w @ ''{'' @ b @ ''}'' @ w' @ ''```'' @ q"
  using assms by (simp_all add: block_at_def)

lemma regex_match_before_block:
  assumes "regex_match reply = Some (pre, g, post)" and "block_at reply p w b w' q"
  shows "length pre \<le> length p \<and> (length p = length pre \<longrightarrow> length g \<le> length b + 2)"
proof -
  note b = block_at_split [OF assms(2)]
  from match_here_complete [OF b(1) b(2), of b q] obtain g0 r0 where
    h: "match_here (''```json'' @ w @ ''{'' @ b @ ''}'' @ w' @ ''```'' @ q) = Some (g0, r0)"
    and l: "length g0 \<le> length b + 2"
    by (elim exE conjE)
  from regex_match_minimal_start [OF h, of p] obtain pre1 g1 r1 where
    m: "regex_match (p @ ''```json'' @ w @ ''{'' @ b @ ''}'' @ w' @ ''```'' @ q) = Some (pre1, g1, r1)"
    and lp: "length pre1 \<le> length p" and e: "length pre1 = length p \<longrightarrow> g1 = g0 \<and> r1 = r0"
    by (elim exE conjE)
  from m assms(1) have "pre1 = pre" "g1 = g"
    unfolding b(3) [symmetric] by simp_all
  with lp e l show ?thesis by auto
qed

lemma block_at_matched:
  assumes "block_at reply p w b w' q"
  shows "regex_match reply \<noteq> None"
proof -
  note b = block_at_split [OF assms]
  from match_here_complete [OF b(1) b(2), of b q] obtain g0 r0 where
    h: "match_here (''```json'' @ w @ ''{'' @ b @ ''}'' @ w' @ ''```'' @ q) = Some (g0, r0)"
    by (elim exE conjE)
  from regex_match_minimal_start [OF h, of p] obtain pre1 g1 r1 where
    "regex_match (p @ ''```json'' @ w @ ''{'' @ b @ ''}'' @ w' @ ''```'' @ q) = Some (pre1, g1, r1)"
    by (elim exE conjE)
  then show ?thesis
    unfolding b(3) [symmetric] by simp
qed

lemma regex_match_is_block:
  assumes "regex_match reply = Some (pre, g, post)"
  shows "\<exists>ws body ws'. g = ''{'' @ body @ ''}'' \<and> block_at reply pre ws body ws' post"
proof -
  from regex_match_sound [OF assms] obtain ws body ws' where
    w: "\<forall>c\<in>set ws. is_space c" and w': "\<forall>c\<in>set ws'. is_space c"
    and g: "g = ''{'' @ body @ ''}''"
    and r: "reply = pre @ ''```json'' @ ws @ g @ ws' @ ''```'' @ post"
    by (elim exE conjE)
  from r have "reply = pre @ ''```json'' @ ws @ ''{'' @ body @ ''}'' @ ws' @ ''```'' @ post"
    unfolding g by (simp only: append_assoc)
  with w w' have "block_at reply pre ws body ws' post"
    unfolding block_at_def by (intro conjI)
  with g show ?thesis by (intro exI conjI)
qed

lemma regex_match_first_block:
  assumes "regex_match reply = Some (pre, ''{'' @ body @ ''}'', post)"
    and "block_at reply pre ws body ws' post"
  shows "first_block reply pre ws body ws' post"
  unfolding first_block_def
proof (intro conjI allI impI)
  show "block_at reply pre ws body ws' post" by (rule assms(2))
next
  fix p w b w' q
  assume "block_at reply p w b w' q"
  from regex_match_before_block [OF assms(1) this]
  show "length pre \<le> length p" by (rule conjunct1)
next
  fix p w b w' q
  assume "block_at reply p w b w' q" and "length p = length pre"
  from regex_match_before_block [OF assms(1) this(1)]
  have "length p = length pre \<longrightarrow> length (''{'' @ body @ ''}'') \<le> length b + 2"
    by (rule conjunct2)
  from this \<open>length p = length pre\<close>
  have "length (''{'' @ body @ ''}'') \<le> length b + 2" by (rule mp)
  then show "length body \<le> length b" by simp
qed

lemma spaces_split_unique:
  assumes "\<forall>c\<in>set a. is_space c" and "\<forall>c\<in>set b. is_space c"
    and "\<not> is_space x" and "\<not> is_space y" and "a @ x # r = b @ y # r'"
  shows "a = b \<and> x # r = y # r'"
proof -
  have "takeWhile is_space (a @ x # r) = a"
    using assms(1,3) by (simp add: takeWhile_append2)
  moreover have "takeWhile is_space (b @ y # r') = b"
    using assms(2,4) by (simp add: takeWhile_append2)
  ultimately have "a = b" using assms(5) by simp
  with assms(5) show ?thesis by simp
qed

lemma first_block_matched:
  assumes "first_block reply pre ws body ws' post"
  shows "regex_match reply = Some (pre, ''{'' @ body @ ''}'', post)"
proof -
  from assms have B: "block_at reply pre ws body ws' post"
    unfolding first_block_def by (rule conjunct1)
  have M: "length pre \<le> length p \<and> (length p = length pre \<longrightarrow> length body \<le> length b)"
    if "block_at reply p w b w' q" for p w b w' q
    using assms that unfolding first_block_def by blast
  from block_at_matched [OF B] obtain p g q where m: "regex_match reply = Some (p, g, q)"
    by auto
  from regex_match_is_block [OF m] obtain w b w' where
    g: "g = ''{'' @ b @ ''}''" and B1: "block_at reply p w b w' q"
    by (elim exE conjE)
  note d = block_at_split [OF B]
  note d1 = block_at_split [OF B1]
  have lp: "length p = length pre"
    using M [OF B1] regex_match_before_block [OF m B] by simp
  have lb: "length b = length body"
    using M [OF B1] regex_match_before_block [OF m B] lp g by simp
  have e0: "pre @ (''```json'' @ ws @ ''{'' @ body @ ''}'' @ ws' @ ''```'' @ post)
          = p @ (''```json'' @ w @ ''{'' @ b @ ''}'' @ w' @ ''```'' @ q)"
    using d(3) d1(3) by simp
  from e0 lp have p: "p = pre"
    and e1: "''```json'' @ ws @ ''{'' @ body @ ''}'' @ ws' @ ''```'' @ post
           = ''```json'' @ w @ ''{'' @ b @ ''}'' @ w' @ ''```'' @ q"
    by (simp_all only: append_eq_append_conv simp_thms)
  from e1 have e2: "ws @ CHR ''{'' # (body @ ''}'' @ ws' @ ''```'' @ post)
                  = w @ CHR ''{'' # (b @ ''}'' @ w' @ ''```'' @ q)"
    by simp
  from spaces_split_unique [OF d(1) d1(1) not_space_fence(3) not_space_fence(3) e2]
  have e3: "body @ (''}'' @ ws' @ ''```'' @ post) = b @ (''}'' @ w' @ ''```'' @ q)"
    by simp
  from e3 lb have b: "b = body"
    and e4: "''}'' @ ws' @ ''```'' @ post = ''}'' @ w' @ ''```'' @ q"
    by (simp_all only: append_eq_append_conv simp_thms)
  from e4 have e5: "ws' @ CHR 0x60 # (''``'' @ post) = w' @ CHR 0x60 # (''``'' @ q)"
    by simp
  from spaces_split_unique [OF d(2) d1(2) not_space_fence(1) not_space_fence(1) e5]
  have q: "q = post" by simp
  show ?thesis
    using m unfolding g p b q .
qed

lemma no_block_no_match:
  assumes "\<not> (\<exists>p w b w' q. block_at reply p w b w' q)"
  shows "regex_match reply = None"
proof (rule ccontr)
  assume "regex_match reply \<noteq> None"
  then obtain pre g post where "regex_match reply = Some (pre, g, post)"
    by auto
  from regex_match_is_block [OF this] obtain ws body ws' where "block_at reply pre ws body ws' post"
    by (elim exE conjE)
  then have "\<exists>p w b w' q. block_at reply p w b w' q"
    by (intro exI)
  with assms show False by (rule notE)
qed

lemma block_has_first:
  assumes "\<exists>p w b w' q. block_at reply p w b w' q"
  shows "\<exists>pre ws body ws' post. first_block reply pre ws body ws' post"
proof -
  from assms obtain p w b w' q where "block_at reply p w b w' q"
    by (elim exE)
  from block_at_matched [OF this] obtain pre g post where m: "regex_match reply = Some (pre, g, post)"
    by auto
  from regex_match_is_block [OF m] obtain ws body ws' where
    g: "g = ''{'' @ body @ ''}''" and B: "block_at reply pre ws body ws' post"
    by (elim exE conjE)
  from m have "regex_match reply = Some (pre, ''{'' @ body @ ''}'', post)"
    unfolding g .
  from regex_match_first_block [OF this B] show ?thesis
    by (intro exI)
qed

lemma opt_chain_truthy:
  "access_truthy (opt_chain (Value j) k)
     \<longleftrightarrow> (\<exists>kv x. j = JObject kv \<and> map_of kv k = Some x \<and> truthy x)"
  by (cases j) (auto split: option.splits)

lemma extract_jumper_matched:
  assumes "regex_match reply = Some (pre, CHR ''{'' # g, post)"
  shows "extract_jumper P reply = Some v \<longleftrightarrow>
           (\<exists>kvs kv f t. P (CHR ''{'' # g) = Some (JObject kvs) \<and> map_of kvs ''jumper'' = Some v
              \<and> v = JObject kv \<and> map_of kv ''from'' = Some f \<and> truthy f
              \<and> map_of kv ''to'' = Some t \<and> truthy t)"
proof (cases "P (CHR ''{'' # g)")
  case None
  with assms show ?thesis by (simp add: extract_jumper_def)
next
  case (Some parsed)
  show ?thesis
  proof (cases parsed)
    case (JObject kvs)
    show ?thesis
    proof (cases "map_of kvs ''jumper''")
      case None
      with assms Some JObject show ?thesis by (simp add: extract_jumper_def)
    next
      case (Some j)
      with assms \<open>P (CHR ''{'' # g) = Some parsed\<close> JObject
      have "extract_jumper P reply = Some v \<longleftrightarrow>
              (access_truthy (opt_chain (Value j) ''from'') \<and> access_truthy (opt_chain (Value j) ''to'') \<and> j = v)"
        by (auto simp: extract_jumper_def)
      also have "\<dots> \<longleftrightarrow> (\<exists>kv f t. v = JObject kv \<and> map_of kv ''from'' = Some f \<and> truthy f
              \<and> map_of kv ''to'' = Some t \<and> truthy t \<and> j = v)"
        unfolding opt_chain_truthy by auto
      finally show ?thesis
        using Some \<open>P (CHR ''{'' # g) = Some parsed\<close> JObject by auto
    qed
  qed (use assms Some in \<open>auto simp: extract_jumper_def\<close>)
qed

lemma modelMessage_jumper:
  "msg_jumperSuggestion (modelMessage P reply) = Some v
     \<longleftrightarrow> (extract_jumper P reply = Some v \<and> truthy v)"
  by (auto simp: modelMessage_def split: option.splits)

text \<open>
  Claim C3, as the code has it, for every reply. The message built from the reply is appended
  to the transcript with the role of the model. When the reply holds no block of the pattern,
  the text shown is the trimmed reply and there is no jumper suggestion. When it holds one, it
  has a first block, and the text shown is the reply without the first block, trimmed,
  whatever the block holds; the jumper suggestion is the \<open>jumper\<close> value of the parsed block
  when the block parses to an object whose \<open>jumper\<close> is an object with truthy \<open>from\<close> and
  \<open>to\<close>, and absent otherwise, in particular when the block does not parse.
\<close>

theorem jumper_extraction:
  "chatHistory (handleSendMessage_reply JSON_parse reply s)
      = chatHistory s @ [modelMessage JSON_parse reply]
   \<and> msg_role (modelMessage JSON_parse reply) = Role_model
   \<and> (\<not> (\<exists>p w b w' q. block_at reply p w b w' q)
        \<longrightarrow> msg_text (modelMessage JSON_parse reply) = trim reply
          \<and> msg_jumperSuggestion (modelMessage JSON_parse reply) = None)
   \<and> ((\<exists>p w b w' q. block_at reply p w b w' q)
        \<longrightarrow> (\<exists>pre ws body ws' post. first_block reply pre ws body ws' post))
   \<and> (first_block reply pre ws body ws' post
        \<longrightarrow> msg_text (modelMessage JSON_parse reply) = trim (pre @ post)
          \<and> (msg_jumperSuggestion (modelMessage JSON_parse reply) = Some v \<longleftrightarrow>
               (\<exists>kvs kv f t. JSON_parse (''{'' @ body @ ''}'') = Some (JObject kvs)
                  \<and> map_of kvs ''jumper'' = Some v \<and> v = JObject kv
                  \<and> map_of kv ''from'' = Some f \<and> truthy f \<and> map_of kv ''to'' = Some t \<and> truthy t))
          \<and> (JSON_parse (''{'' @ body @ ''}'') = None
               \<longrightarrow> msg_jumperSuggestion (modelMessage JSON_parse reply) = None))"
proof -
  have a: "chatHistory (handleSendMessage_reply JSON_parse reply s)
      = chatHistory s @ [modelMessage JSON_parse reply]"
    by (simp add: handleSendMessage_reply_def Let_def split: option.splits)
  have b: "msg_role (modelMessage JSON_parse reply) = Role_model"
    by (simp add: modelMessage_def)
  have c: "\<not> (\<exists>p w b w' q. block_at reply p w b w' q)
        \<longrightarrow> msg_text (modelMessage JSON_parse reply) = trim reply
          \<and> msg_jumperSuggestion (modelMessage JSON_parse reply) = None"
  proof
    assume "\<not> (\<exists>p w b w' q. block_at reply p w b w' q)"
    then have "regex_match reply = None"
      by (rule no_block_no_match)
    then show "msg_text (modelMessage JSON_parse reply) = trim reply
          \<and> msg_jumperSuggestion (modelMessage JSON_parse reply) = None"
      by (simp add: modelMessage_def replace_block_def extract_jumper_def)
  qed
  have d: "(\<exists>p w b w' q. block_at reply p w b w' q)
        \<longrightarrow> (\<exists>pre ws body ws' post. first_block reply pre ws body ws' post)"
    by (rule impI) (rule block_has_first)
  have e: "first_block reply pre ws body ws' post
        \<longrightarrow> msg_text (modelMessage JSON_parse reply) = trim (pre @ post)
          \<and> (msg_jumperSuggestion (modelMessage JSON_parse reply) = Some v \<longleftrightarrow>
               (\<exists>kvs kv f t. JSON_parse (''{'' @ body @ ''}'') = Some (JObject kvs)
                  \<and> map_of kvs ''jumper'' = Some v \<and> v = JObject kv
                  \<and> map_of kv ''from'' = Some f \<and> truthy f \<and> map_of kv ''to'' = Some t \<and> truthy t))
          \<and> (JSON_parse (''{'' @ body @ ''}'') = None
               \<longrightarrow> msg_jumperSuggestion (modelMessage JSON_parse reply) = None)"
  proof
    assume "first_block reply pre ws body ws' post"
    from first_block_matched [OF this]
    have m: "regex_match reply = Some (pre, CHR ''{'' # body @ ''}'', post)"
      by simp
    have t: "msg_text (modelMessage JSON_parse reply) = trim (pre @ post)"
      using m by (simp add: modelMessage_def replace_block_def)
    have j: "msg_jumperSuggestion (modelMessage JSON_parse reply) = Some v \<longleftrightarrow>
               (\<exists>kvs kv f t. JSON_parse (''{'' @ body @ ''}'') = Some (JObject kvs)
                  \<and> map_of kvs ''jumper'' = Some v \<and> v = JObject kv
                  \<and> map_of kv ''from'' = Some f \<and> truthy f \<and> map_of kv ''to'' = Some t \<and> truthy t)"
      unfolding modelMessage_jumper extract_jumper_matched [OF m] by auto
    have n: "JSON_parse (''{'' @ body @ ''}'') = None
               \<longrightarrow> msg_jumperSuggestion (modelMessage JSON_parse reply) = None"
      using m by (simp add: modelMessage_def extract_jumper_def)
    show "msg_text (modelMessage JSON_parse reply) = trim (pre @ post)
          \<and> (msg_jumperSuggestion (modelMessage JSON_parse reply) = Some v \<longleftrightarrow>
               (\<exists>kvs kv f t. JSON_parse (''{'' @ body @ ''}'') = Some (JObject kvs)
                  \<and> map_of kvs ''jumper'' = Some v \<and> v = JObject kv
                  \<and> map_of kv ''from'' = Some f \<and> truthy f \<and> map_of kv ''to'' = Some t \<and> truthy t))
          \<and> (JSON_parse (''{'' @ body @ ''}'') = None
               \<longrightarrow> msg_jumperSuggestion (modelMessage JSON_parse reply) = None)"
      by (rule conjI [OF t conjI [OF j n]])
  qed
  show ?thesis
    by (rule conjI [OF a conjI [OF b conjI [OF c conjI [OF d e]]]])
qed

lemma message_eqI:
  "msg_role m = r \<Longrightarrow> msg_text m = t \<Longrightarrow> msg_jumperSuggestion m = j
     \<Longrightarrow> m = \<lparr>msg_role = r, msg_text = t, msg_jumperSuggestion = j\<rparr>"
  by auto

theorem jumper_extraction_witness:
  "modelMessage parse_jumper_examples jumper_reply
     = \<lparr>msg_role = Role_model, msg_text = ''Add a wire.'', msg_jumperSuggestion = Some jumper_value\<rparr>
   \<and> modelMessage parse_jumper_examples ''A ```json foo ``` B ```json {x} ``` C''
     = \<lparr>msg_role = Role_model, msg_text = ''A ```json foo ``` B  C'', msg_jumperSuggestion = None\<rparr>
   \<and> modelMessage parse_jumper_examples ''A ```json {x B ```json {y} ``` C''
     = \<lparr>msg_role = Role_model, msg_text = ''A  C'', msg_jumperSuggestion = None\<rparr>
   \<and> modelMessage parse_jumper_examples ''No jumper needed. ''
     = \<lparr>msg_role = Role_model, msg_text = ''No jumper needed.'', msg_jumperSuggestion = None\<rparr>"
proof -
  have m1: "regex_match jumper_reply
              = Some (''Add a wire.'' @ [CHR 0x0A], ''{'' @ jumper_body @ ''}'', [CHR 0x0A])"
    by (simp add: jumper_reply_def jumper_body_def match_here_def is_space_def)
  have b1: "block_at jumper_reply (''Add a wire.'' @ [CHR 0x0A]) [CHR 0x0A] jumper_body [CHR 0x0A] [CHR 0x0A]"
    by (simp add: block_at_def jumper_reply_def is_space_def)
  note f1 = regex_match_first_block [OF m1 b1]
  have p1: "parse_jumper_examples (''{'' @ jumper_body @ ''}'') = Some (JObject [(''jumper'', jumper_value)])"
    by (simp add: parse_jumper_examples_def)
  have e1: "\<exists>kvs kv f t. parse_jumper_examples (''{'' @ jumper_body @ ''}'') = Some (JObject kvs)
                  \<and> map_of kvs ''jumper'' = Some jumper_value \<and> jumper_value = JObject kv
                  \<and> map_of kv ''from'' = Some f \<and> truthy f \<and> map_of kv ''to'' = Some t \<and> truthy t"
    unfolding p1 by (simp add: jumper_value_def)
  have t1: "trim ((''Add a wire.'' @ [CHR 0x0A]) @ [CHR 0x0A]) = ''Add a wire.''"
    by (simp add: trim_def is_space_def)
  note T1 = jumper_extraction [where JSON_parse = parse_jumper_examples and reply = jumper_reply
      and pre = "''Add a wire.'' @ [CHR 0x0A]" and ws = "[CHR 0x0A]" and body = jumper_body
      and ws' = "[CHR 0x0A]" and post = "[CHR 0x0A]" and v = jumper_value]
  note B1 = T1 [THEN conjunct2, THEN conjunct2, THEN conjunct2, THEN conjunct2, THEN mp, OF f1]
  have r1: "modelMessage parse_jumper_examples jumper_reply
     = \<lparr>msg_role = Role_model, msg_text = ''Add a wire.'', msg_jumperSuggestion = Some jumper_value\<rparr>"
  proof (rule message_eqI)
    show "msg_role (modelMessage parse_jumper_examples jumper_reply) = Role_model"
      by (rule T1 [THEN conjunct2, THEN conjunct1])
    show "msg_text (modelMessage parse_jumper_examples jumper_reply) = ''Add a wire.''"
      using B1 [THEN conjunct1] unfolding t1 .
    show "msg_jumperSuggestion (modelMessage parse_jumper_examples jumper_reply) = Some jumper_value"
      by (rule B1 [THEN conjunct2, THEN conjunct1, THEN iffD2, OF e1])
  qed
  have m2: "regex_match ''A ```json foo ``` B ```json {x} ``` C''
              = Some (''A ```json foo ``` B '', ''{'' @ ''x'' @ ''}'', '' C'')"
    by (simp add: match_here_def is_space_def)
  have b2: "block_at ''A ```json foo ``` B ```json {x} ``` C'' ''A ```json foo ``` B '' '' '' ''x'' '' '' '' C''"
    by (simp add: block_at_def is_space_def)
  note f2 = regex_match_first_block [OF m2 b2]
  have p2: "parse_jumper_examples (''{'' @ ''x'' @ ''}'') = None"
    by (simp add: parse_jumper_examples_def jumper_body_def)
  have t2: "trim (''A ```json foo ``` B '' @ '' C'') = ''A ```json foo ``` B  C''"
    by (simp add: trim_def is_space_def)
  note T2 = jumper_extraction [where JSON_parse = parse_jumper_examples
      and reply = "''A ```json foo ``` B ```json {x} ``` C''"
      and pre = "''A ```json foo ``` B ''" and ws = "'' ''" and body = "''x''"
      and ws' = "'' ''" and post = "'' C''"]
  note B2 = T2 [THEN conjunct2, THEN conjunct2, THEN conjunct2, THEN conjunct2, THEN mp, OF f2]
  have r2: "modelMessage parse_jumper_examples ''A ```json foo ``` B ```json {x} ``` C''
     = \<lparr>msg_role = Role_model, msg_text = ''A ```json foo ``` B  C'', msg_jumperSuggestion = None\<rparr>"
  proof (rule message_eqI)
    show "msg_role (modelMessage parse_jumper_examples ''A ```json foo ``` B ```json {x} ``` C'') = Role_model"
      by (rule T2 [THEN conjunct2, THEN conjunct1])
    show "msg_text (modelMessage parse_jumper_examples ''A ```json foo ``` B ```json {x} ``` C'')
            = ''A ```json foo ``` B  C''"
      using B2 [THEN conjunct1] unfolding t2 .
    show "msg_jumperSuggestion (modelMessage parse_jumper_examples ''A ```json foo ``` B ```json {x} ``` C'') = None"
      by (rule B2 [THEN conjunct2, THEN conjunct2, THEN mp, OF p2])
  qed
  have m3: "regex_match ''A ```json {x B ```json {y} ``` C''
              = Some (''A '', ''{'' @ ''x B ```json {y'' @ ''}'', '' C'')"
    by (simp add: match_here_def is_space_def)
  have b3: "block_at ''A ```json {x B ```json {y} ``` C'' ''A '' '' '' ''x B ```json {y'' '' '' '' C''"
    by (simp add: block_at_def is_space_def)
  note f3 = regex_match_first_block [OF m3 b3]
  have p3: "parse_jumper_examples (''{'' @ ''x B ```json {y'' @ ''}'') = None"
    by (simp add: parse_jumper_examples_def jumper_body_def)
  have t3: "trim (''A '' @ '' C'') = ''A  C''"
    by (simp add: trim_def is_space_def)
  note T3 = jumper_extraction [where JSON_parse = parse_jumper_examples
      and reply = "''A ```json {x B ```json {y} ``` C''"
      and pre = "''A ''" and ws = "'' ''" and body = "''x B ```json {y''"
      and ws' = "'' ''" and post = "'' C''"]
  note B3 = T3 [THEN conjunct2, THEN conjunct2, THEN conjunct2, THEN conjunct2, THEN mp, OF f3]
  have r3: "modelMessage parse_jumper_examples ''A ```json {x B ```json {y} ``` C''
     = \<lparr>msg_role = Role_model, msg_text = ''A  C'', msg_jumperSuggestion = None\<rparr>"
  proof (rule message_eqI)
    show "msg_role (modelMessage parse_jumper_examples ''A ```json {x B ```json {y} ``` C'') = Role_model"
      by (rule T3 [THEN conjunct2, THEN conjunct1])
    show "msg_text (modelMessage parse_jumper_examples ''A ```json {x B ```json {y} ``` C'') = ''A  C''"
      using B3 [THEN conjunct1] unfolding t3 .
    show "msg_jumperSuggestion (modelMessage parse_jumper_examples ''A ```json {x B ```json {y} ``` C'') = None"
      by (rule B3 [THEN conjunct2, THEN conjunct2, THEN mp, OF p3])
  qed
  have m4: "regex_match ''No jumper needed. '' = None"
    by (simp add: match_here_def)
  have nb: "\<not> (\<exists>p w b w' q. block_at ''No jumper needed. '' p w b w' q)"
  proof
    assume "\<exists>p w b w' q. block_at ''No jumper needed. '' p w b w' q"
    then obtain p w b w' q where "block_at ''No jumper needed. '' p w b w' q"
      by (elim exE)
    from block_at_matched [OF this] m4 show False by (rule notE)
  qed
  have t4: "trim ''No jumper needed. '' = ''No jumper needed.''"
    by (simp add: trim_def is_space_def)
  note T4 = jumper_extraction [where JSON_parse = parse_jumper_examples and reply = "''No jumper needed. ''"]
  note N4 = T4 [THEN conjunct2, THEN conjunct2, THEN conjunct1, THEN mp, OF nb]
  have r4: "modelMessage parse_jumper_examples ''No jumper needed. ''
     = \<lparr>msg_role = Role_model, msg_text = ''No jumper needed.'', msg_jumperSuggestion = None\<rparr>"
  proof (rule message_eqI)
    show "msg_role (modelMessage parse_jumper_examples ''No jumper needed. '') = Role_model"
      by (rule T4 [THEN conjunct2, THEN conjunct1])
    show "msg_text (modelMessage parse_jumper_examples ''No jumper needed. '') = ''No jumper needed.''"
      using N4 [THEN conjunct1] unfolding t4 .
    show "msg_jumperSuggestion (modelMessage parse_jumper_examples ''No jumper needed. '') = None"
      by (rule N4 [THEN conjunct2])
  qed
  show ?thesis
    by (rule conjI [OF r1 conjI [OF r2 conjI [OF r3 r4]]])
qed

text \<open>
  The claim as written fails twice. A block that does not parse is cut out of the text all the
  same, so the text shown is not the raw reply; and a reply without a block is shown trimmed,
  not as it came.
\<close>

theorem jumper_malformed_block_counterexample:
  "msg_text (modelMessage (\<lambda>t. None) ''See ```json{oops}``` end'') = ''See  end''
   \<and> msg_jumperSuggestion (modelMessage (\<lambda>t. None) ''See ```json{oops}``` end'') = None
   \<and> msg_text (modelMessage (\<lambda>t. None) ''Fine. '') = ''Fine.''"
proof -
  have m: "regex_match ''See ```json{oops}``` end'' = Some (''See '', ''{oops}'', '' end'')"
    by (simp add: match_here_def)
  have n: "regex_match ''Fine. '' = None"
    by (simp add: match_here_def)
  show ?thesis
    unfolding modelMessage_def replace_block_def extract_jumper_def m n
    by (simp add: trim_def is_space_def)
qed

end
